theory Spec2Isabelle
  imports Main
begin

section \<open>CloudConnection.tsx: the delayed connection indicator\<close>

subsection \<open>Connection status\<close>

text \<open>
  Modelled from the spec: the enum \<open>WebSocketStatus\<close> is imported from
  \<open>@/services/WebSocketManager\<close>, whose declaration is not among the sources. The spec
  gives it exactly four variants (connected, connecting, error, disconnected). The fifth
  constructor \<open>OTHER\<close> stands for any run-time value outside the four, which is what the
  \<open>default\<close> arms of the two switches are written for.
\<close>

datatype WebSocketStatus = CONNECTED | CONNECTING | ERROR | DISCONNECTED | OTHER string

subsection \<open>The display mapping (lines 31-76)\<close>

text \<open>
  Both functions are a \<open>switch\<close> on the status in which every arm returns. Such a switch
  compares the value with the case labels in order (by \<open>===\<close>) and runs the first arm
  that matches; when none matches it runs the \<open>default\<close> arm; when there is no
  \<open>default\<close> arm either, the function ends without a \<open>return\<close> and its caller gets
  \<open>undefined\<close>, here \<open>None\<close>.
\<close>

fun switch :: "('a \<times> 'b) list \<Rightarrow> 'b option \<Rightarrow> 'a \<Rightarrow> 'b option" where
  "switch [] dflt v = dflt"
| "switch (arm # arms) dflt v = (if v = fst arm then Some (snd arm) else switch arms dflt v)"

text \<open>
  \<open>getGradientColors\<close>: the last arm is \<open>case DISCONNECTED: default:\<close>, one body under
  both labels.
\<close>

definition getGradientColors :: "WebSocketStatus \<Rightarrow> string list option" where
  "getGradientColors connectionStatus =
     switch
       [(CONNECTED, [''#4CAF50'', ''#81C784'']),
        (CONNECTING, [''#FFA726'', ''#FB8C00'']),
        (ERROR, [''#FFC107'', ''#FFD54F'']),
        (DISCONNECTED, [''#FF8A80'', ''#FF5252''])]
       (Some [''#FF8A80'', ''#FF5252''])
       connectionStatus"

record icon =
  name :: string
  color :: string
  label :: string

text \<open>
  \<open>getIcon\<close>: the same switch. \<open>translate\<close> comes from \<open>@/i18n\<close>, which is not among the
  sources, so it is a parameter: the function from a key to the text shown for it.
\<close>

definition getIcon :: "(string \<Rightarrow> string) \<Rightarrow> WebSocketStatus \<Rightarrow> icon option" where
  "getIcon translate connectionStatus =
     switch
       [(CONNECTED,
           \<lparr>name = ''check-circle'', color = ''#4CAF50'',
            label = translate ''connection:connected''\<rparr>),
        (CONNECTING,
           \<lparr>name = ''spinner'', color = ''#FB8C00'',
            label = translate ''connection:connecting''\<rparr>),
        (ERROR,
           \<lparr>name = ''refresh'', color = ''#FFD54F'',
            label = translate ''connection:reconnecting''\<rparr>),
        (DISCONNECTED,
           \<lparr>name = ''exclamation-circle'', color = ''#FF5252'',
            label = translate ''connection:disconnected''\<rparr>)]
       (Some
          \<lparr>name = ''exclamation-circle'', color = ''#FF5252'',
           label = translate ''connection:disconnected''\<rparr>)
       connectionStatus"

subsection \<open>State of the component and of its host\<close>

text \<open>
  One record holds everything the effect and the timer callback read or write:
  the store's live status (\<open>useConnectionStore.getState().status\<close>), the two pieces of React
  state, the two refs, the target of the opacity animation, the host's table of pending
  timeouts (handle and due time, in milliseconds), the next handle the host hands out, and
  the number of calls of \<open>refreshApplets\<close> so far. Times are \<open>Date.now()\<close> readings.
\<close>

record world =
  storeStatus :: WebSocketStatus
  hideCloudConnection :: bool
  delayedStatus :: WebSocketStatus
  disconnectionTimerRef :: "nat option"
  firstDisconnectedTimeRef :: "int option"
  cloudConnectionStatusAnim :: int
  timers :: "(nat \<times> int) list"
  nextTimer :: nat
  refreshCalls :: nat

definition DISCONNECTION_DELAY :: int where
  "DISCONNECTION_DELAY = 5000"

text \<open>Lines 16-25: the first render, with the store's status at that moment.\<close>

definition initial :: "WebSocketStatus \<Rightarrow> world" where
  "initial connectionStatus =
     \<lparr>storeStatus = connectionStatus,
      hideCloudConnection = True,
      delayedStatus = connectionStatus,
      disconnectionTimerRef = None,
      firstDisconnectedTimeRef = None,
      cloudConnectionStatusAnim = 1,
      timers = [],
      nextTimer = 1,
      refreshCalls = 0\<rparr>"

text \<open>Lines 138-140: the component renders nothing while \<open>hideCloudConnection\<close> holds.\<close>

definition shouldDisplay :: "world \<Rightarrow> bool" where
  "shouldDisplay w = (\<not> hideCloudConnection w)"

text \<open>
  What the component hands to the view, computed from \<open>delayedStatus\<close>: line 78
  destructures the result of \<open>getIcon\<close> into \<open>iconName\<close>, \<open>iconColor\<close> and
  \<open>statusLabel\<close>, which throws a TypeError on \<open>undefined\<close>; line 144 passes the result of
  \<open>getGradientColors\<close> on as it is.
\<close>

datatype error = TypeError

record display =
  colors :: "string list option"
  iconName :: string
  iconColor :: string
  statusLabel :: string

definition currentDisplay :: "(string \<Rightarrow> string) \<Rightarrow> world \<Rightarrow> error + display" where
  "currentDisplay translate w =
     (case getIcon translate (delayedStatus w) of
        None \<Rightarrow> Inl TypeError
      | Some i \<Rightarrow>
          Inr \<lparr>colors = getGradientColors (delayedStatus w),
               iconName = name i, iconColor = color i, statusLabel = label i\<rparr>)"

subsection \<open>The host's timers\<close>

text \<open>
  \<open>clearTimeout h\<close> drops the pending timeout with handle \<open>h\<close>, if there is one.
  \<open>setTimeout\<close> called at time \<open>now\<close> with a delay registers a timeout due at
  \<open>now + delay\<close> under a fresh handle and returns the handle. Every timeout of this
  component has the same callback, so the table does not store it.
\<close>

definition clearTimeout :: "nat \<Rightarrow> world \<Rightarrow> world" where
  "clearTimeout h w = w\<lparr>timers := filter (\<lambda>tm. fst tm \<noteq> h) (timers w)\<rparr>"

definition setTimeout :: "int \<Rightarrow> int \<Rightarrow> world \<Rightarrow> nat \<times> world" where
  "setTimeout now delay w =
     (nextTimer w,
      w\<lparr>timers := timers w @ [(nextTimer w, now + delay)], nextTimer := Suc (nextTimer w)\<rparr>)"

definition refreshApplets :: "world \<Rightarrow> world" where
  "refreshApplets w = w\<lparr>refreshCalls := Suc (refreshCalls w)\<rparr>"

subsection \<open>The effect (lines 80-132)\<close>

text \<open>
  Lines 83-86, and again the cleanup function of lines 126-131: a handle in the ref is
  cleared and the ref reset. Handles are truthy (positive ids or timer objects), so the
  test \<open>if (disconnectionTimerRef.current)\<close> is the test for a handle.
\<close>

definition clearPending :: "world \<Rightarrow> world" where
  "clearPending w =
     (case disconnectionTimerRef w of
        None \<Rightarrow> w
      | Some h \<Rightarrow> (clearTimeout h w)\<lparr>disconnectionTimerRef := None\<rparr>)"

definition cleanup :: "world \<Rightarrow> world" where
  "cleanup w = clearPending w"

text \<open>\<open>firstDisconnectedTimeRef.current || 0\<close> (line 100): null and 0 both give 0.\<close>

definition orZero :: "int option \<Rightarrow> int" where
  "orZero r = (case r of None \<Rightarrow> 0 | Some t \<Rightarrow> (if t = 0 then 0 else t))"

text \<open>Lines 95-98: the first departure from CONNECTED is stamped with \<open>Date.now()\<close>.\<close>

definition recordFirstDisconnected :: "int \<Rightarrow> world \<Rightarrow> world" where
  "recordFirstDisconnected now w =
     (if firstDisconnectedTimeRef w = None then w\<lparr>firstDisconnectedTimeRef := Some now\<rparr> else w)"

text \<open>
  Line 100, evaluated where the code evaluates it: after lines 95-98, with the second
  reading \<open>now2\<close> of the clock.
\<close>

definition timeSinceLeftConnected :: "int \<Rightarrow> int \<Rightarrow> world \<Rightarrow> int" where
  "timeSinceLeftConnected now1 now2 w =
     now2 - orZero (firstDisconnectedTimeRef (recordFirstDisconnected now1 w))"

text \<open>Lines 104-106 and 114-116: the three writes that reveal a status.\<close>

definition reveal :: "WebSocketStatus \<Rightarrow> world \<Rightarrow> world" where
  "reveal s w = w\<lparr>delayedStatus := s, hideCloudConnection := False, cloudConnectionStatusAnim := 1\<rparr>"

text \<open>
  Lines 110-118, the callback: it reads the store again and reveals only a status that is
  not CONNECTED. It uses nothing captured when it was scheduled.
\<close>

definition timerCallback :: "world \<Rightarrow> world" where
  "timerCallback w =
     (let currentStatus = storeStatus w
      in if currentStatus \<noteq> CONNECTED then reveal currentStatus w else w)"

text \<open>
  The body of the effect, for the \<open>connectionStatus\<close> of the render it belongs to.
  \<open>now1\<close> and \<open>now2\<close> are the readings of \<open>Date.now()\<close> at lines 97 and 100; the timeout is
  registered at the second one.
\<close>

definition effect :: "int \<Rightarrow> int \<Rightarrow> WebSocketStatus \<Rightarrow> world \<Rightarrow> world" where
  "effect now1 now2 connectionStatus w0 =
     (let w1 = clearPending w0;
          w2 =
            (if connectionStatus = CONNECTED then
               w1\<lparr>firstDisconnectedTimeRef := None,
                  delayedStatus := connectionStatus,
                  hideCloudConnection := True,
                  cloudConnectionStatusAnim := 0\<rparr>
             else
               (let w1a = recordFirstDisconnected now1 w1;
                    timeSince = now2 - orZero (firstDisconnectedTimeRef w1a)
                in if timeSince \<ge> DISCONNECTION_DELAY then reveal connectionStatus w1a
                   else
                     (let remainingDelay = DISCONNECTION_DELAY - timeSince;
                          (h, w1b) = setTimeout now2 remainingDelay w1a
                      in w1b\<lparr>disconnectionTimerRef := Some h\<rparr>)))
      in if connectionStatus = CONNECTED \<or> connectionStatus = DISCONNECTED
         then refreshApplets w2 else w2)"

subsection \<open>The host and React around the effect\<close>

text \<open>
  The host fires a pending timeout: it leaves the table and its callback runs. The ref
  keeps the handle; the next \<open>clearPending\<close> resets it.
\<close>

definition fire :: "nat \<Rightarrow> world \<Rightarrow> world" where
  "fire h w = timerCallback (clearTimeout h w)"

text \<open>
  The dependency list is \<open>[connectionStatus, hideCloudConnection]\<close> (line 132): after a
  render in which \<open>hideCloudConnection\<close> differs from its value at the previous render,
  React runs the cleanup and then the effect again, with the status of that render.
\<close>

definition rerender :: "int \<Rightarrow> bool \<Rightarrow> world \<Rightarrow> world" where
  "rerender now prevHide w =
     (if hideCloudConnection w \<noteq> prevHide then effect now now (storeStatus w) (cleanup w) else w)"

text \<open>Mounting: the first render, and the effect after it.\<close>

definition mount :: "int \<Rightarrow> WebSocketStatus \<Rightarrow> world" where
  "mount now connectionStatus =
     rerender now True (effect now now connectionStatus (initial connectionStatus))"

text \<open>
  The store reports a status at time \<open>now\<close>. An unchanged status leaves both dependencies
  as they were and nothing runs; a changed one is rendered, and the cleanup and the effect
  run (and once more if the effect changed \<open>hideCloudConnection\<close>).
\<close>

definition statusChanged :: "int \<Rightarrow> WebSocketStatus \<Rightarrow> world \<Rightarrow> world" where
  "statusChanged now newStatus w =
     (if newStatus = storeStatus w then w
      else
        (let w1 = w\<lparr>storeStatus := newStatus\<rparr>
         in rerender now (hideCloudConnection w1) (effect now now newStatus (cleanup w1))))"

text \<open>A timeout fires at its due time; a change of \<open>hideCloudConnection\<close> is rendered.\<close>

definition timerFires :: "nat \<times> int \<Rightarrow> world \<Rightarrow> world" where
  "timerFires tm w = rerender (snd tm) (hideCloudConnection w) (fire (fst tm) w)"

definition dueTimer :: "int \<Rightarrow> world \<Rightarrow> (nat \<times> int) option" where
  "dueTimer t w = find (\<lambda>tm. snd tm \<le> t) (timers w)"

subsection \<open>Reachable states\<close>

text \<open>
  Every state the component can be in, with any interleaving of store updates, effect runs
  (each after the cleanup of the previous one, for any rendered status and any clock
  readings), firings of pending timeouts, and the cleanup at unmount.
\<close>

inductive reachable :: "world \<Rightarrow> bool" where
  r_initial: "reachable (initial s)"
| r_store: "reachable w \<Longrightarrow> reachable (w\<lparr>storeStatus := s\<rparr>)"
| r_effect: "reachable w \<Longrightarrow> reachable (effect now1 now2 s (cleanup w))"
| r_fire: "reachable w \<Longrightarrow> tm \<in> set (timers w) \<Longrightarrow> reachable (fire (fst tm) w)"
| r_cleanup: "reachable w \<Longrightarrow> reachable (cleanup w)"

text \<open>
  The two invariants: the host holds at most one timeout of the component, and the ref
  names it; a visible indicator never shows CONNECTED.
\<close>

definition timersOk :: "world \<Rightarrow> bool" where
  "timersOk w =
     (length (timers w) \<le> 1 \<and> (\<forall>tm \<in> set (timers w). disconnectionTimerRef w = Some (fst tm)))"

definition displayOk :: "world \<Rightarrow> bool" where
  "displayOk w = (hideCloudConnection w \<or> delayedStatus w \<noteq> CONNECTED)"

subsection \<open>Two situations of a run\<close>

text \<open>
  \<open>connectedIdle\<close>: the store says CONNECTED and the effect has run for it: the indicator
  is hidden, no departure is recorded and no timeout is pending. \<open>revealPending T\<close>: the
  status left CONNECTED at time \<open>T\<close>, the indicator is still hidden, and the one pending
  timeout, the one in the ref, is due at \<open>T + DISCONNECTION_DELAY\<close>.
\<close>

definition connectedIdle :: "world \<Rightarrow> bool" where
  "connectedIdle w =
     (storeStatus w = CONNECTED \<and> hideCloudConnection w \<and>
      firstDisconnectedTimeRef w = None \<and> timers w = [])"

definition revealPending :: "int \<Rightarrow> world \<Rightarrow> bool" where
  "revealPending T w =
     (storeStatus w \<noteq> CONNECTED \<and> hideCloudConnection w \<and>
      firstDisconnectedTimeRef w = Some T \<and>
      (case disconnectionTimerRef w of
         None \<Rightarrow> False
       | Some h \<Rightarrow> timers w = [(h, T + DISCONNECTION_DELAY)]))"

text \<open>
  \<open>sinceOk\<close>: the departure time is unset exactly when the store says CONNECTED.
\<close>

definition sinceOk :: "world \<Rightarrow> bool" where
  "sinceOk w = ((firstDisconnectedTimeRef w = None) = (storeStatus w = CONNECTED))"

subsection \<open>Basic facts about the operations\<close>

lemmas effect_defs = effect_def clearPending_def cleanup_def clearTimeout_def setTimeout_def
  refreshApplets_def recordFirstDisconnected_def reveal_def orZero_def DISCONNECTION_DELAY_def

lemma hide_effect_nonconnected:
  "s \<noteq> CONNECTED \<Longrightarrow> \<not> hideCloudConnection w \<Longrightarrow> \<not> hideCloudConnection (effect n1 n2 s w)"
  by (simp add: effect_defs Let_def split: option.splits prod.splits)

lemma length_timers_effect:
  "length (timers (effect n1 n2 s w)) \<le> Suc (length (timers w))"
  by (auto simp add: effect_defs Let_def le_SucI split: option.splits prod.splits)

lemma length_timers_cleanup: "length (timers (cleanup w)) \<le> length (timers w)"
  by (simp add: cleanup_def clearPending_def clearTimeout_def split: option.splits)

lemma hide_cleanup: "hideCloudConnection (cleanup w) = hideCloudConnection w"
  by (simp add: cleanup_def clearPending_def clearTimeout_def split: option.splits)

lemma storeStatus_cleanup: "storeStatus (cleanup w) = storeStatus w"
  by (simp add: cleanup_def clearPending_def clearTimeout_def split: option.splits)

lemma dueTimer_mem: "dueTimer t w = Some tm \<Longrightarrow> tm \<in> set (timers w)"
  by (auto simp: dueTimer_def find_Some_iff)

lemma timers_fire: "timers (fire h w) = filter (\<lambda>tm. fst tm \<noteq> h) (timers w)"
  by (simp add: fire_def timerCallback_def clearTimeout_def reveal_def Let_def)

lemma hide_fire:
  "hideCloudConnection (fire h w) = (storeStatus w = CONNECTED \<and> hideCloudConnection w)"
  by (simp add: fire_def timerCallback_def clearTimeout_def reveal_def Let_def)

lemma storeStatus_fire: "storeStatus (fire h w) = storeStatus w"
  by (simp add: fire_def timerCallback_def clearTimeout_def reveal_def Let_def)

lemma length_timers_fire:
  assumes "tm \<in> set (timers w)"
  shows "length (timers (fire (fst tm) w)) < length (timers w)"
proof -
  have "\<not> (\<lambda>x. fst x \<noteq> fst tm) tm" by simp
  with assms show ?thesis
    unfolding timers_fire by (rule length_filter_less)
qed

subsection \<open>Letting time pass\<close>

text \<open>
  \<open>advance t\<close> lets the clock reach \<open>t\<close>: as long as a pending timeout is due, it
  fires. Each firing removes a timeout, and only the firing that reveals the indicator can
  register a new one, so the loop ends.
\<close>

definition advanceMeasure :: "int \<times> world \<Rightarrow> nat" where
  "advanceMeasure p = length (timers (snd p)) + (if hideCloudConnection (snd p) then 2 else 0)"

lemma timerFires_decreases:
  assumes "tm \<in> set (timers w)"
  shows "advanceMeasure (t, timerFires tm w) < advanceMeasure (t, w)"
proof -
  let ?w' = "fire (fst tm) w"
  have less: "length (timers ?w') < length (timers w)"
    using assms by (rule length_timers_fire)
  show ?thesis
  proof (cases "hideCloudConnection ?w' = hideCloudConnection w")
    case True
    then have "timerFires tm w = ?w'"
      by (simp add: timerFires_def rerender_def)
    with less True show ?thesis
      by (simp add: advanceMeasure_def)
  next
    case False
    then have st: "storeStatus w \<noteq> CONNECTED" and hw: "hideCloudConnection w"
      and hw': "\<not> hideCloudConnection ?w'"
      by (auto simp: hide_fire)
    let ?r = "effect (snd tm) (snd tm) (storeStatus ?w') (cleanup ?w')"
    have eq: "timerFires tm w = ?r"
      using False by (simp add: timerFires_def rerender_def)
    have "\<not> hideCloudConnection ?r"
      using st hw' by (intro hide_effect_nonconnected) (simp_all add: storeStatus_fire hide_cleanup)
    moreover have "length (timers ?r) \<le> Suc (length (timers (cleanup ?w')))"
      by (rule length_timers_effect)
    moreover have "length (timers (cleanup ?w')) \<le> length (timers ?w')"
      by (rule length_timers_cleanup)
    ultimately show ?thesis
      using less hw eq by (simp add: advanceMeasure_def)
  qed
qed

function advance :: "int \<Rightarrow> world \<Rightarrow> world" where
  "advance t w =
     (case dueTimer t w of
        None \<Rightarrow> w
      | Some tm \<Rightarrow> advance t (timerFires tm w))"
  by pat_completeness auto
termination
proof (relation "measure advanceMeasure")
  show "wf (measure advanceMeasure)" by simp
next
  fix t w tm
  assume "dueTimer t w = Some tm"
  then have "tm \<in> set (timers w)" by (rule dueTimer_mem)
  then show "((t, timerFires tm w), (t, w)) \<in> measure advanceMeasure"
    by (simp add: timerFires_decreases)
qed

declare advance.simps [simp del]

text \<open>
  A run: the store reports the statuses of the list in order, each at its time, and the
  timeouts due by then fire first.
\<close>

fun run :: "world \<Rightarrow> (int \<times> WebSocketStatus) list \<Rightarrow> world" where
  "run w [] = w"
| "run w (ev # evs) = run (statusChanged (fst ev) (snd ev) (advance (fst ev) w)) evs"

subsection \<open>The invariants hold in every reachable state\<close>

lemma cleanup_initial: "cleanup (initial s) = initial s"
  by (simp add: cleanup_def clearPending_def initial_def)

lemma timersOk_initial: "timersOk (initial s)"
  by (simp add: timersOk_def initial_def)

lemma timersOk_store: "timersOk w \<Longrightarrow> timersOk (w\<lparr>storeStatus := s\<rparr>)"
  by (simp add: timersOk_def)

lemma ref_clearPending: "disconnectionTimerRef (clearPending w) = None"
  by (simp add: clearPending_def clearTimeout_def split: option.splits)

lemma timers_clearPending:
  assumes "timersOk w"
  shows "timers (clearPending w) = []"
proof (cases "disconnectionTimerRef w")
  case None
  with assms have "timers w = []"
    by (cases "timers w") (auto simp: timersOk_def)
  with None show ?thesis
    by (simp add: clearPending_def)
next
  case (Some h)
  with assms have "\<forall>tm \<in> set (timers w). fst tm = h"
    by (auto simp: timersOk_def)
  then have "filter (\<lambda>tm. fst tm \<noteq> h) (timers w) = []"
    by (simp add: filter_empty_conv)
  with Some show ?thesis
    by (simp add: clearPending_def clearTimeout_def)
qed

lemma clearPending_fields:
  "storeStatus (clearPending w) = storeStatus w"
  "hideCloudConnection (clearPending w) = hideCloudConnection w"
  "delayedStatus (clearPending w) = delayedStatus w"
  "firstDisconnectedTimeRef (clearPending w) = firstDisconnectedTimeRef w"
  "cloudConnectionStatusAnim (clearPending w) = cloudConnectionStatusAnim w"
  "nextTimer (clearPending w) = nextTimer w"
  "refreshCalls (clearPending w) = refreshCalls w"
  by (simp_all add: clearPending_def clearTimeout_def split: option.splits)

lemmas effect_body_defs = effect_def setTimeout_def refreshApplets_def
  recordFirstDisconnected_def reveal_def timeSinceLeftConnected_def Let_def

lemma timersOk_clearPending: "timersOk w \<Longrightarrow> timersOk (clearPending w)"
  by (simp add: timersOk_def timers_clearPending)

lemma timers_effect:
  "timers (effect n1 n2 s w) =
     (if s \<noteq> CONNECTED \<and> timeSinceLeftConnected n1 n2 w < DISCONNECTION_DELAY
      then timers (clearPending w) @
             [(nextTimer w, n2 + (DISCONNECTION_DELAY - timeSinceLeftConnected n1 n2 w))]
      else timers (clearPending w))"
  by (simp add: effect_body_defs clearPending_fields)

lemma ref_effect:
  "disconnectionTimerRef (effect n1 n2 s w) =
     (if s \<noteq> CONNECTED \<and> timeSinceLeftConnected n1 n2 w < DISCONNECTION_DELAY
      then Some (nextTimer w) else None)"
  by (simp add: effect_body_defs clearPending_fields ref_clearPending)

lemma timersOk_effect:
  assumes "timersOk w"
  shows "timersOk (effect n1 n2 s w)"
  using timers_clearPending [OF assms]
  by (simp add: timersOk_def timers_effect ref_effect)

lemma ref_fire: "disconnectionTimerRef (fire h w) = disconnectionTimerRef w"
  by (simp add: fire_def timerCallback_def clearTimeout_def reveal_def Let_def)

lemma timersOk_fire:
  assumes "timersOk w"
  shows "timersOk (fire h w)"
proof -
  have "length (filter (\<lambda>tm. fst tm \<noteq> h) (timers w)) \<le> length (timers w)"
    by (rule length_filter_le)
  also have "\<dots> \<le> 1"
    using assms by (simp add: timersOk_def)
  finally show ?thesis
    using assms by (simp add: timersOk_def timers_fire ref_fire)
qed

lemma reachable_timersOk: "reachable w \<Longrightarrow> timersOk w"
proof (induction rule: reachable.induct)
  case (r_initial s)
  show ?case by (rule timersOk_initial)
next
  case (r_store w s)
  then show ?case by (simp add: timersOk_store)
next
  case (r_effect w now1 now2 s)
  then show ?case by (simp add: timersOk_effect timersOk_clearPending cleanup_def)
next
  case (r_fire w tm)
  then show ?case by (simp add: timersOk_fire)
next
  case (r_cleanup w)
  then show ?case by (simp add: timersOk_clearPending cleanup_def)
qed

lemma displayOk_initial: "displayOk (initial s)"
  by (simp add: displayOk_def initial_def)

lemma displayOk_clearPending: "displayOk (clearPending w) = displayOk w"
  by (simp add: displayOk_def clearPending_def clearTimeout_def split: option.splits)

lemma displayOk_effect: "displayOk w \<Longrightarrow> displayOk (effect n1 n2 s w)"
  by (auto simp: displayOk_def effect_defs Let_def split: option.splits)

lemma displayOk_timerCallback: "displayOk w \<Longrightarrow> displayOk (timerCallback w)"
  by (auto simp: displayOk_def timerCallback_def reveal_def Let_def)

lemma displayOk_fire: "displayOk w \<Longrightarrow> displayOk (fire h w)"
  by (auto simp: displayOk_def fire_def timerCallback_def clearTimeout_def reveal_def Let_def)

lemma reachable_displayOk: "reachable w \<Longrightarrow> displayOk w"
proof (induction rule: reachable.induct)
  case (r_initial s)
  show ?case by (rule displayOk_initial)
next
  case (r_store w s)
  then show ?case by (simp add: displayOk_def)
next
  case (r_effect w now1 now2 s)
  then show ?case by (simp add: displayOk_effect displayOk_clearPending cleanup_def)
next
  case (r_fire w tm)
  then show ?case by (simp add: displayOk_fire)
next
  case (r_cleanup w)
  then show ?case by (simp add: displayOk_clearPending cleanup_def)
qed

lemma reachable_rerender: "reachable w \<Longrightarrow> reachable (rerender now p w)"
  by (simp add: rerender_def r_effect)

lemma reachable_mount: "reachable (mount now s)"
proof -
  have "reachable (effect now now s (cleanup (initial s)))"
    by (intro r_effect r_initial)
  then show ?thesis
    by (simp add: mount_def cleanup_initial reachable_rerender)
qed

lemma reachable_statusChanged: "reachable w \<Longrightarrow> reachable (statusChanged now s w)"
  by (simp add: statusChanged_def Let_def reachable_rerender r_effect r_store)

lemma reachable_timerFires:
  "reachable w \<Longrightarrow> tm \<in> set (timers w) \<Longrightarrow> reachable (timerFires tm w)"
  by (simp add: timerFires_def reachable_rerender r_fire)

lemma reachable_advance: "reachable w \<Longrightarrow> reachable (advance t w)"
proof (induction t w rule: advance.induct)
  case (1 t w)
  show ?case
  proof (cases "dueTimer t w")
    case None
    with "1.prems" show ?thesis
      by (subst advance.simps) simp
  next
    case (Some tm)
    then have "tm \<in> set (timers w)" by (rule dueTimer_mem)
    with "1.prems" have "reachable (timerFires tm w)"
      by (rule reachable_timerFires)
    with Some "1.IH" show ?thesis
      by (subst advance.simps) simp
  qed
qed

lemma reachable_run: "reachable w \<Longrightarrow> reachable (run w evs)"
  by (induction evs arbitrary: w) (simp_all add: reachable_statusChanged reachable_advance)

subsection \<open>Runs that leave CONNECTED\<close>

lemma timersOk_connectedIdle: "connectedIdle w \<Longrightarrow> timersOk w"
  by (simp add: connectedIdle_def timersOk_def)

lemma timersOk_revealPending: "revealPending T w \<Longrightarrow> timersOk w"
  by (auto simp: revealPending_def timersOk_def split: option.splits)

lemma first_effect:
  "firstDisconnectedTimeRef (effect n1 n2 s w) =
     (if s = CONNECTED then None
      else Some (case firstDisconnectedTimeRef w of None \<Rightarrow> n1 | Some t \<Rightarrow> t))"
  by (simp add: effect_body_defs clearPending_fields split: option.splits)

lemma hide_effect:
  "hideCloudConnection (effect n1 n2 s w) =
     (if s = CONNECTED then True
      else if timeSinceLeftConnected n1 n2 w \<ge> DISCONNECTION_DELAY then False
      else hideCloudConnection w)"
  by (simp add: effect_body_defs clearPending_fields)

lemma delayed_effect:
  "delayedStatus (effect n1 n2 s w) =
     (if s = CONNECTED \<or> timeSinceLeftConnected n1 n2 w \<ge> DISCONNECTION_DELAY then s
      else delayedStatus w)"
  by (simp add: effect_body_defs clearPending_fields)

lemma storeStatus_effect: "storeStatus (effect n1 n2 s w) = storeStatus w"
  by (simp add: effect_body_defs clearPending_fields)

lemma refreshCalls_effect:
  "refreshCalls (effect n1 n2 s w) =
     refreshCalls w + (if s = CONNECTED \<or> s = DISCONNECTED then 1 else 0)"
  by (simp add: effect_body_defs clearPending_fields)

lemma timeSince_None:
  "firstDisconnectedTimeRef w = None \<Longrightarrow> timeSinceLeftConnected n n w = 0"
  by (simp add: timeSinceLeftConnected_def recordFirstDisconnected_def orZero_def)

lemma timeSince_Some:
  "firstDisconnectedTimeRef w = Some T \<Longrightarrow> timeSinceLeftConnected n1 n2 w = n2 - T"
  by (simp add: timeSinceLeftConnected_def recordFirstDisconnected_def orZero_def)

lemma first_cleanup: "firstDisconnectedTimeRef (cleanup w) = firstDisconnectedTimeRef w"
  by (simp add: cleanup_def clearPending_fields)

text \<open>Leaving CONNECTED: the reveal is scheduled for 5000 ms after the departure.\<close>

lemma leave_connected:
  assumes idle: "connectedIdle w" and s: "s \<noteq> CONNECTED"
  shows "revealPending T (statusChanged T s w)"
    and "storeStatus (statusChanged T s w) = s"
    and "delayedStatus (statusChanged T s w) = delayedStatus w"
proof -
  let ?w1 = "w\<lparr>storeStatus := s\<rparr>"
  let ?e = "effect T T s (cleanup ?w1)"
  have ne: "s \<noteq> storeStatus w" using idle s by (simp add: connectedIdle_def)
  have f: "firstDisconnectedTimeRef (cleanup ?w1) = None"
    using idle by (simp add: first_cleanup connectedIdle_def)
  have ts: "timeSinceLeftConnected T T (cleanup ?w1) = 0"
    using f by (rule timeSince_None)
  have ok: "timersOk ?w1"
    using idle by (simp add: connectedIdle_def timersOk_def)
  have tc: "timers (clearPending (cleanup ?w1)) = []"
    using ok by (simp add: cleanup_def timers_clearPending timersOk_clearPending)
  have h: "hideCloudConnection ?e"
    using idle s ts by (simp add: hide_effect hide_cleanup DISCONNECTION_DELAY_def connectedIdle_def)
  then have eq: "statusChanged T s w = ?e"
    using ne idle by (simp add: statusChanged_def rerender_def Let_def connectedIdle_def)
  show "revealPending T (statusChanged T s w)"
    unfolding eq revealPending_def
    using s h f ts tc
    by (simp add: storeStatus_effect storeStatus_cleanup first_effect ref_effect timers_effect
        DISCONNECTION_DELAY_def)
  show "storeStatus (statusChanged T s w) = s"
    unfolding eq by (simp add: storeStatus_effect storeStatus_cleanup)
  show "delayedStatus (statusChanged T s w) = delayedStatus w"
    unfolding eq using s ts
    by (simp add: delayed_effect DISCONNECTION_DELAY_def cleanup_def clearPending_fields)
qed

text \<open>Another non-connected status inside the window keeps the same due time.\<close>

lemma stay_disconnected:
  assumes p: "revealPending T w" and s: "s \<noteq> CONNECTED" and t: "t < T + 5000"
  shows "revealPending T (statusChanged t s w)"
    and "storeStatus (statusChanged t s w) = s"
    and "delayedStatus (statusChanged t s w) = delayedStatus w"
proof -
  show "storeStatus (statusChanged t s w) = s"
    by (simp add: statusChanged_def rerender_def Let_def storeStatus_effect storeStatus_cleanup)
  let ?w1 = "w\<lparr>storeStatus := s\<rparr>"
  let ?e = "effect t t s (cleanup ?w1)"
  have f: "firstDisconnectedTimeRef (cleanup ?w1) = Some T"
    using p by (simp add: first_cleanup revealPending_def)
  have ts: "timeSinceLeftConnected t t (cleanup ?w1) = t - T"
    using f by (rule timeSince_Some)
  have ok: "timersOk ?w1"
    using timersOk_revealPending [OF p] by (simp add: timersOk_def)
  have tc: "timers (clearPending (cleanup ?w1)) = []"
    using ok by (simp add: cleanup_def timers_clearPending timersOk_clearPending)
  have hw: "hideCloudConnection w" using p by (simp add: revealPending_def)
  have h: "hideCloudConnection ?e"
    using hw s ts t by (simp add: hide_effect hide_cleanup DISCONNECTION_DELAY_def)
  have eq: "s \<noteq> storeStatus w \<Longrightarrow> statusChanged t s w = ?e"
    using h hw by (simp add: statusChanged_def rerender_def Let_def)
  show "revealPending T (statusChanged t s w)"
  proof (cases "s = storeStatus w")
    case True
    with p show ?thesis by (simp add: statusChanged_def)
  next
    case False
    show ?thesis
      unfolding eq [OF False] revealPending_def
      using s h f ts tc t
      by (simp add: storeStatus_effect storeStatus_cleanup first_effect ref_effect timers_effect
          DISCONNECTION_DELAY_def)
  qed
  show "delayedStatus (statusChanged t s w) = delayedStatus w"
  proof (cases "s = storeStatus w")
    case True
    then show ?thesis by (simp add: statusChanged_def)
  next
    case False
    show ?thesis
      unfolding eq [OF False] using s ts t
      by (simp add: delayed_effect DISCONNECTION_DELAY_def cleanup_def clearPending_fields)
  qed
qed

lemma advance_no_timers: "timers w = [] \<Longrightarrow> advance t w = w"
  by (subst advance.simps) (simp add: dueTimer_def)

lemma advance_before:
  assumes "revealPending T w" and "t < T + 5000"
  shows "advance t w = w"
  using assms
  by (subst advance.simps)
     (auto simp: dueTimer_def revealPending_def DISCONNECTION_DELAY_def split: option.splits)

lemma fire_fields:
  "storeStatus (fire h w) = storeStatus w"
  "firstDisconnectedTimeRef (fire h w) = firstDisconnectedTimeRef w"
  "delayedStatus (fire h w) = (if storeStatus w \<noteq> CONNECTED then storeStatus w else delayedStatus w)"
  by (simp_all add: fire_def timerCallback_def clearTimeout_def reveal_def Let_def)

text \<open>The scheduled timeout fires: the live status is revealed and nothing stays pending.\<close>

lemma timerFires_reveal:
  assumes p: "revealPending T w" and tm: "timers w = [tm]"
  shows "\<not> hideCloudConnection (timerFires tm w)"
    and "delayedStatus (timerFires tm w) = storeStatus w"
    and "timers (timerFires tm w) = []"
    and "storeStatus (timerFires tm w) = storeStatus w"
proof -
  let ?f = "fire (fst tm) w"
  let ?r = "effect (snd tm) (snd tm) (storeStatus ?f) (cleanup ?f)"
  have st: "storeStatus w \<noteq> CONNECTED" and hw: "hideCloudConnection w"
    and fw: "firstDisconnectedTimeRef w = Some T"
    using p by (simp_all add: revealPending_def)
  have due: "snd tm = T + 5000"
    using p tm by (auto simp: revealPending_def DISCONNECTION_DELAY_def split: option.splits)
  have hf: "\<not> hideCloudConnection ?f"
    using st by (simp add: hide_fire)
  then have eq: "timerFires tm w = ?r"
    using hw by (simp add: timerFires_def rerender_def)
  have okf: "timersOk ?f"
    using timersOk_revealPending [OF p] by (rule timersOk_fire)
  have tc: "timers (clearPending (cleanup ?f)) = []"
    using okf by (simp add: cleanup_def timers_clearPending timersOk_clearPending)
  have ts: "timeSinceLeftConnected (snd tm) (snd tm) (cleanup ?f) = 5000"
    using fw due by (simp add: timeSince_Some [of _ T] first_cleanup fire_fields)
  show "\<not> hideCloudConnection (timerFires tm w)"
    unfolding eq using st ts by (simp add: hide_effect fire_fields DISCONNECTION_DELAY_def)
  show "delayedStatus (timerFires tm w) = storeStatus w"
    unfolding eq using st ts by (simp add: delayed_effect fire_fields DISCONNECTION_DELAY_def)
  show "timers (timerFires tm w) = []"
    unfolding eq using st ts tc by (simp add: timers_effect fire_fields DISCONNECTION_DELAY_def)
  show "storeStatus (timerFires tm w) = storeStatus w"
    unfolding eq by (simp add: storeStatus_effect storeStatus_cleanup fire_fields)
qed

lemma advance_after:
  assumes p: "revealPending T w" and t: "T + 5000 \<le> t"
  shows "\<not> hideCloudConnection (advance t w)"
    and "delayedStatus (advance t w) = storeStatus w"
    and "timers (advance t w) = []"
    and "storeStatus (advance t w) = storeStatus w"
proof -
  obtain h where tm: "timers w = [(h, T + 5000)]"
    using p by (auto simp: revealPending_def DISCONNECTION_DELAY_def split: option.splits)
  then have due: "dueTimer t w = Some (h, T + 5000)"
    using t by (simp add: dueTimer_def)
  have "advance t w = advance t (timerFires (h, T + 5000) w)"
    using due by (subst advance.simps) simp
  also have "\<dots> = timerFires (h, T + 5000) w"
    using timerFires_reveal(3) [OF p tm] by (rule advance_no_timers)
  finally have eq: "advance t w = timerFires (h, T + 5000) w" .
  show "\<not> hideCloudConnection (advance t w)"
    unfolding eq by (rule timerFires_reveal(1) [OF p tm])
  show "delayedStatus (advance t w) = storeStatus w"
    unfolding eq by (rule timerFires_reveal(2) [OF p tm])
  show "timers (advance t w) = []"
    unfolding eq by (rule timerFires_reveal(3) [OF p tm])
  show "storeStatus (advance t w) = storeStatus w"
    unfolding eq by (rule timerFires_reveal(4) [OF p tm])
qed

lemma connectedIdle_mount: "connectedIdle (mount now CONNECTED)"
  by (simp add: connectedIdle_def mount_def rerender_def hide_effect storeStatus_effect
      first_effect timers_effect timers_clearPending timersOk_initial)
     (simp add: initial_def)

text \<open>A run of non-connected statuses inside the window of the first one.\<close>

lemma run_inside_window:
  assumes "revealPending T w"
    and "\<forall>ev \<in> set evs. snd ev \<noteq> CONNECTED \<and> fst ev < T + 5000"
  shows "revealPending T (run w evs) \<and>
         storeStatus (run w evs) = (if evs = [] then storeStatus w else snd (last evs)) \<and>
         delayedStatus (run w evs) = delayedStatus w"
  using assms
proof (induction evs arbitrary: w)
  case Nil
  then show ?case by simp
next
  case (Cons ev evs)
  let ?w' = "statusChanged (fst ev) (snd ev) (advance (fst ev) w)"
  have ev: "snd ev \<noteq> CONNECTED" "fst ev < T + 5000"
    and rest: "\<forall>e \<in> set evs. snd e \<noteq> CONNECTED \<and> fst e < T + 5000"
    using Cons.prems(2) by simp_all
  have a: "advance (fst ev) w = w"
    using Cons.prems(1) ev(2) by (rule advance_before)
  have p': "revealPending T ?w'" and s': "storeStatus ?w' = snd ev"
    and d': "delayedStatus ?w' = delayedStatus w"
    unfolding a using Cons.prems(1) ev by (simp_all add: stay_disconnected)
  from Cons.IH [OF p' rest] s' d' show ?case
    by simp
qed

lemma connectedIdle_after_connected:
  assumes ok: "timersOk w" and ne: "storeStatus w \<noteq> CONNECTED"
  shows "connectedIdle (statusChanged t CONNECTED w)"
proof -
  let ?w1 = "w\<lparr>storeStatus := CONNECTED\<rparr>"
  let ?e = "effect t t CONNECTED (cleanup ?w1)"
  have ok1: "timersOk (cleanup ?w1)"
    using ok by (simp add: cleanup_def timersOk_clearPending timersOk_store)
  have idle_e: "connectedIdle ?e"
    using timers_clearPending [OF ok1]
    by (simp add: connectedIdle_def storeStatus_effect storeStatus_cleanup hide_effect
        first_effect timers_effect)
  have ok_e: "timersOk (cleanup ?e)"
    using idle_e by (simp add: cleanup_def timersOk_clearPending timersOk_connectedIdle)
  have idle_r: "connectedIdle (effect t t CONNECTED (cleanup ?e))"
    using timers_clearPending [OF ok_e]
    by (simp add: connectedIdle_def storeStatus_effect storeStatus_cleanup hide_effect
        first_effect timers_effect)
  have "storeStatus ?e = CONNECTED"
    by (simp add: storeStatus_effect storeStatus_cleanup)
  then have "statusChanged t CONNECTED w = ?e \<or>
        statusChanged t CONNECTED w = effect t t CONNECTED (cleanup ?e)"
    using ne by (simp add: statusChanged_def rerender_def Let_def)
  with idle_e idle_r show ?thesis by auto
qed

lemma timerCallback_connected: "storeStatus w = CONNECTED \<Longrightarrow> timerCallback w = w"
  by (simp add: timerCallback_def)

lemma anim_effect:
  "cloudConnectionStatusAnim (effect n1 n2 s w) =
     (if s = CONNECTED then 0
      else if timeSinceLeftConnected n1 n2 w \<ge> DISCONNECTION_DELAY then 1
      else cloudConnectionStatusAnim w)"
  by (simp add: effect_body_defs clearPending_fields)

lemma reachable_pending: "reachable (statusChanged 0 DISCONNECTED (mount 0 CONNECTED))"
  by (intro reachable_statusChanged reachable_mount)

lemma pending_example: "revealPending 0 (statusChanged 0 DISCONNECTED (mount 0 CONNECTED))"
  by (simp add: leave_connected connectedIdle_mount)

lemma pending_example_timers: "timers (statusChanged 0 DISCONNECTED (mount 0 CONNECTED)) \<noteq> []"
  using pending_example by (auto simp: revealPending_def split: option.splits)

subsection \<open>The departure time along a run\<close>

lemma sinceOk_effect: "sinceOk (effect n1 n2 (storeStatus w) w)"
  by (simp add: sinceOk_def first_effect storeStatus_effect)

lemma sinceOk_rerender: "sinceOk w \<Longrightarrow> sinceOk (rerender now p w)"
  using sinceOk_effect [of now now "cleanup w"]
  by (simp add: rerender_def storeStatus_cleanup)

lemma sinceOk_mount: "sinceOk (mount now s)"
proof -
  have "sinceOk (effect now now (storeStatus (initial s)) (initial s))"
    by (rule sinceOk_effect)
  then have "sinceOk (effect now now s (initial s))"
    by (simp add: initial_def)
  then show ?thesis
    by (simp add: mount_def sinceOk_rerender)
qed

lemma sinceOk_statusChanged:
  assumes "sinceOk w"
  shows "sinceOk (statusChanged now s w)"
proof (cases "s = storeStatus w")
  case True
  with assms show ?thesis by (simp add: statusChanged_def)
next
  case False
  let ?w1 = "cleanup (w\<lparr>storeStatus := s\<rparr>)"
  have "sinceOk (effect now now (storeStatus ?w1) ?w1)"
    by (rule sinceOk_effect)
  then have "sinceOk (effect now now s ?w1)"
    by (simp add: storeStatus_cleanup)
  with False show ?thesis
    by (simp add: statusChanged_def Let_def sinceOk_rerender)
qed

lemma sinceOk_timerFires:
  assumes "sinceOk w"
  shows "sinceOk (timerFires tm w)"
proof -
  have "sinceOk (fire (fst tm) w)"
    using assms by (simp add: sinceOk_def fire_fields)
  then show ?thesis
    unfolding timerFires_def by (rule sinceOk_rerender)
qed

lemma sinceOk_advance: "sinceOk w \<Longrightarrow> sinceOk (advance t w)"
proof (induction t w rule: advance.induct)
  case (1 t w)
  show ?case
  proof (cases "dueTimer t w")
    case None
    with "1.prems" show ?thesis
      by (subst advance.simps) simp
  next
    case (Some tm)
    from "1.prems" have "sinceOk (timerFires tm w)"
      by (rule sinceOk_timerFires)
    with Some "1.IH" show ?thesis
      by (subst advance.simps) simp
  qed
qed

lemma sinceOk_run: "sinceOk w \<Longrightarrow> sinceOk (run w evs)"
  by (induction evs arbitrary: w) (simp_all add: sinceOk_statusChanged sinceOk_advance)

section \<open>The properties of the specification\<close>

text \<open>
  C1. Starting from CONNECTED, with DISCONNECTED reported at time \<open>T\<close> and nothing after
  it, the indicator is hidden at every time before \<open>T + 5000\<close> and visible, showing
  DISCONNECTED, at every time from \<open>T + 5000\<close> on.
\<close>

theorem delay_before_reveal:
  assumes "connectedIdle w"
  shows "(shouldDisplay (advance t (statusChanged T DISCONNECTED w)) \<longleftrightarrow> T + 5000 \<le> t) \<and>
         (T + 5000 \<le> t \<longrightarrow>
            delayedStatus (advance t (statusChanged T DISCONNECTED w)) = DISCONNECTED)"
proof -
  let ?w' = "statusChanged T DISCONNECTED w"
  have p: "revealPending T ?w'" and st: "storeStatus ?w' = DISCONNECTED"
    using assms by (simp_all add: leave_connected)
  show ?thesis
  proof (cases "T + 5000 \<le> t")
    case True
    with advance_after(1,2) [OF p True] st show ?thesis
      by (simp add: shouldDisplay_def)
  next
    case False
    then have "advance t ?w' = ?w'"
      using p by (simp add: advance_before)
    with False p show ?thesis
      by (simp add: shouldDisplay_def revealPending_def)
  qed
qed

theorem delay_before_reveal_witness:
  "connectedIdle (mount 0 CONNECTED) \<and>
   \<not> shouldDisplay (advance 4999 (statusChanged 0 DISCONNECTED (mount 0 CONNECTED))) \<and>
   shouldDisplay (advance 5000 (statusChanged 0 DISCONNECTED (mount 0 CONNECTED))) \<and>
   delayedStatus (advance 5000 (statusChanged 0 DISCONNECTED (mount 0 CONNECTED))) = DISCONNECTED"
  using delay_before_reveal [OF connectedIdle_mount, of 4999 0 0]
    delay_before_reveal [OF connectedIdle_mount, of 5000 0 0] connectedIdle_mount [of 0]
  by simp

text \<open>
  C3. When the status returns to CONNECTED while a reveal is pending, the timeout is
  cancelled, nothing is left to fire and the indicator stays hidden however far the clock
  advances. A callback that runs while the store says CONNECTED changes nothing: it reads
  the store, not a status captured when it was scheduled.
\<close>

theorem recovery_cancels_reveal:
  assumes "reachable w" and "storeStatus w \<noteq> CONNECTED"
  shows "timers (statusChanged t CONNECTED w) = [] \<and>
         advance t' (statusChanged t CONNECTED w) = statusChanged t CONNECTED w \<and>
         \<not> shouldDisplay (advance t' (statusChanged t CONNECTED w)) \<and>
         (storeStatus w0 = CONNECTED \<longrightarrow> timerCallback w0 = w0 \<and> fire h w0 = clearTimeout h w0)"
proof -
  have idle: "connectedIdle (statusChanged t CONNECTED w)"
    using assms by (simp add: connectedIdle_after_connected reachable_timersOk)
  then have none: "timers (statusChanged t CONNECTED w) = []"
    by (simp add: connectedIdle_def)
  then have "advance t' (statusChanged t CONNECTED w) = statusChanged t CONNECTED w"
    by (rule advance_no_timers)
  with idle none show ?thesis
    by (simp add: shouldDisplay_def connectedIdle_def fire_def timerCallback_def clearTimeout_def)
qed


theorem recovery_cancels_reveal_witness:
  "reachable (statusChanged 0 DISCONNECTED (mount 0 CONNECTED)) \<and>
   storeStatus (statusChanged 0 DISCONNECTED (mount 0 CONNECTED)) \<noteq> CONNECTED \<and>
   timers (statusChanged 0 DISCONNECTED (mount 0 CONNECTED)) \<noteq> [] \<and>
   timers (statusChanged 2000 CONNECTED (statusChanged 0 DISCONNECTED (mount 0 CONNECTED))) = [] \<and>
   \<not> shouldDisplay
       (advance 5000
          (statusChanged 2000 CONNECTED (statusChanged 0 DISCONNECTED (mount 0 CONNECTED))))"
proof -
  let ?w = "statusChanged 0 DISCONNECTED (mount 0 CONNECTED)"
  have r: "reachable ?w"
    by (intro reachable_statusChanged reachable_mount)
  have p: "revealPending 0 ?w" and s: "storeStatus ?w = DISCONNECTED"
    by (simp_all add: leave_connected connectedIdle_mount)
  then have ne: "storeStatus ?w \<noteq> CONNECTED" by simp
  have t: "timers ?w \<noteq> []"
    using p by (auto simp: revealPending_def split: option.splits)
  from recovery_cancels_reveal [OF r ne, of 2000 5000 "initial CONNECTED" 0] r ne t show ?thesis
    by blast
qed

text \<open>
  C4. Starting from CONNECTED, a first non-connected status at time \<open>T\<close> followed by any
  further non-connected statuses before \<open>T + 5000\<close>: the indicator stays hidden, exactly
  one timeout is pending and it is due at \<open>T + 5000\<close>; from then on the indicator shows
  the last status of the run, and no timeout is left, so nothing is revealed a second time.
\<close>

theorem single_reveal_after_first_departure:
  assumes idle: "connectedIdle w" and s: "s \<noteq> CONNECTED"
    and evs: "\<forall>ev \<in> set evs. snd ev \<noteq> CONNECTED \<and> fst ev < T + 5000"
  shows "\<not> shouldDisplay (run w ((T, s) # evs)) \<and>
         map snd (timers (run w ((T, s) # evs))) = [T + 5000] \<and>
         (shouldDisplay (advance t (run w ((T, s) # evs))) \<longleftrightarrow> T + 5000 \<le> t) \<and>
         (T + 5000 \<le> t \<longrightarrow>
            delayedStatus (advance t (run w ((T, s) # evs))) = snd (last ((T, s) # evs)) \<and>
            timers (advance t (run w ((T, s) # evs))) = [] \<and>
            advance t' (advance t (run w ((T, s) # evs))) = advance t (run w ((T, s) # evs)))"
proof -
  let ?w1 = "statusChanged T s w"
  let ?r = "run w ((T, s) # evs)"
  have "advance T w = w"
    using idle by (simp add: advance_no_timers connectedIdle_def)
  then have r: "?r = run ?w1 evs" by simp
  have p1: "revealPending T ?w1" and s1: "storeStatus ?w1 = s"
    using idle s by (simp_all add: leave_connected)
  from run_inside_window [OF p1 evs] s1
  have p: "revealPending T ?r" and st: "storeStatus ?r = snd (last ((T, s) # evs))"
    unfolding r by simp_all
  have hid: "\<not> shouldDisplay ?r"
    using p by (simp add: shouldDisplay_def revealPending_def)
  have one: "map snd (timers ?r) = [T + 5000]"
    using p by (auto simp: revealPending_def DISCONNECTION_DELAY_def split: option.splits)
  show ?thesis
  proof (cases "T + 5000 \<le> t")
    case True
    have "advance t' (advance t ?r) = advance t ?r"
      using advance_after(3) [OF p True] by (rule advance_no_timers)
    with advance_after [OF p True] st hid one True show ?thesis
      by (simp add: shouldDisplay_def)
  next
    case False
    then have "advance t ?r = ?r"
      using p by (simp add: advance_before)
    with False hid one show ?thesis
      by simp
  qed
qed

theorem single_reveal_after_first_departure_witness:
  "connectedIdle (mount 0 CONNECTED) \<and> CONNECTING \<noteq> CONNECTED \<and>
   list_all (\<lambda>ev. snd ev \<noteq> CONNECTED \<and> fst ev < (0::int) + 5000)
     [(100, ERROR), (200, DISCONNECTED)] \<and>
   \<not> shouldDisplay
       (advance 4999 (run (mount 0 CONNECTED) [(0, CONNECTING), (100, ERROR), (200, DISCONNECTED)])) \<and>
   shouldDisplay
       (advance 5000 (run (mount 0 CONNECTED) [(0, CONNECTING), (100, ERROR), (200, DISCONNECTED)])) \<and>
   delayedStatus
       (advance 5000 (run (mount 0 CONNECTED) [(0, CONNECTING), (100, ERROR), (200, DISCONNECTED)]))
     = DISCONNECTED"
proof -
  have evs: "\<forall>ev \<in> set [(100, ERROR), (200, DISCONNECTED)]. snd ev \<noteq> CONNECTED \<and> fst ev < (0::int) + 5000"
    by simp
  have s: "CONNECTING \<noteq> CONNECTED" by simp
  from single_reveal_after_first_departure [OF connectedIdle_mount s evs, of 0 4999]
    single_reveal_after_first_departure [OF connectedIdle_mount s evs, of 0 5000]
    connectedIdle_mount [of 0]
  show ?thesis by simp
qed

text \<open>
  C5. Whatever the state before, the effect run for CONNECTED hides the indicator at once,
  sets the displayed status to CONNECTED, clears the departure time and the ref, and in
  every reachable state leaves no timeout pending.
\<close>

theorem connected_hides_immediately:
  "hideCloudConnection (effect n1 n2 CONNECTED w) \<and>
   \<not> shouldDisplay (effect n1 n2 CONNECTED w) \<and>
   delayedStatus (effect n1 n2 CONNECTED w) = CONNECTED \<and>
   firstDisconnectedTimeRef (effect n1 n2 CONNECTED w) = None \<and>
   disconnectionTimerRef (effect n1 n2 CONNECTED w) = None \<and>
   (reachable w \<longrightarrow> timers (effect n1 n2 CONNECTED w) = [])"
  by (simp add: shouldDisplay_def hide_effect delayed_effect first_effect ref_effect
      timers_effect timers_clearPending reachable_timersOk)

theorem connected_hides_immediately_witness:
  "reachable (statusChanged 0 DISCONNECTED (mount 0 CONNECTED)) \<and>
   timers (statusChanged 0 DISCONNECTED (mount 0 CONNECTED)) \<noteq> [] \<and>
   timers (effect 2000 2000 CONNECTED (statusChanged 0 DISCONNECTED (mount 0 CONNECTED))) = [] \<and>
   \<not> shouldDisplay (effect 2000 2000 CONNECTED (statusChanged 0 DISCONNECTED (mount 0 CONNECTED)))"
  using connected_hides_immediately
      [of 2000 2000 "statusChanged 0 DISCONNECTED (mount 0 CONNECTED)"]
    reachable_pending pending_example_timers
  by blast

text \<open>
  C6. In every reachable state at most one timeout is pending. The effect first clears
  the one in the ref, so after it the table holds the newly scheduled timeout or nothing;
  the cleanup leaves the table empty and the ref unset.
\<close>

theorem at_most_one_timer:
  assumes "reachable w"
  shows "length (timers w) \<le> 1 \<and>
         timers (clearPending w) = [] \<and> disconnectionTimerRef (clearPending w) = None \<and>
         timers (effect n1 n2 s w) =
           (if s \<noteq> CONNECTED \<and> timeSinceLeftConnected n1 n2 w < 5000
            then [(nextTimer w, n2 + (5000 - timeSinceLeftConnected n1 n2 w))] else []) \<and>
         timers (cleanup w) = [] \<and> disconnectionTimerRef (cleanup w) = None"
proof -
  have ok: "timersOk w" using assms by (rule reachable_timersOk)
  then have "length (timers w) \<le> 1" by (simp add: timersOk_def)
  moreover have "timers (clearPending w) = []" using ok by (rule timers_clearPending)
  ultimately show ?thesis
    by (simp add: timers_effect ref_clearPending cleanup_def DISCONNECTION_DELAY_def)
qed

theorem at_most_one_timer_witness:
  "reachable (statusChanged 0 DISCONNECTED (mount 0 CONNECTED)) \<and>
   length (timers (statusChanged 0 DISCONNECTED (mount 0 CONNECTED))) = 1 \<and>
   timers (cleanup (statusChanged 0 DISCONNECTED (mount 0 CONNECTED))) = [] \<and>
   length (timers (effect 100 100 ERROR (statusChanged 0 DISCONNECTED (mount 0 CONNECTED)))) = 1"
proof -
  let ?w = "statusChanged 0 DISCONNECTED (mount 0 CONNECTED)"
  have ts: "timeSinceLeftConnected 100 100 ?w = 100"
    using pending_example by (simp add: revealPending_def timeSince_Some [of _ 0])
  obtain h where "timers ?w = [(h, 5000)]"
    using pending_example
    by (auto simp: revealPending_def DISCONNECTION_DELAY_def split: option.splits)
  then have one: "length (timers ?w) = 1" by simp
  from at_most_one_timer [OF reachable_pending, of 100 100 ERROR] reachable_pending ts one
  show ?thesis by simp
qed

text \<open>
  C7. After every run of the effect the departure time is unset exactly when the status
  of that run was CONNECTED: the CONNECTED branch resets it, every other branch keeps a
  recorded time or records the current one. The callback and the cleanup leave it alone,
  so along every run from mounting it is unset exactly when the last status is CONNECTED.
\<close>

theorem disconnectedSince_iff_connected:
  "(firstDisconnectedTimeRef (effect n1 n2 s w) = None \<longleftrightarrow> s = CONNECTED) \<and>
   firstDisconnectedTimeRef (effect n1 n2 s w) =
     (if s = CONNECTED then None
      else Some (case firstDisconnectedTimeRef w of None \<Rightarrow> n1 | Some t \<Rightarrow> t)) \<and>
   firstDisconnectedTimeRef (timerCallback w) = firstDisconnectedTimeRef w \<and>
   firstDisconnectedTimeRef (cleanup w) = firstDisconnectedTimeRef w \<and>
   (firstDisconnectedTimeRef (run (mount t0 s0) evs) = None \<longleftrightarrow>
      storeStatus (run (mount t0 s0) evs) = CONNECTED)"
proof -
  have "sinceOk (run (mount t0 s0) evs)"
    by (intro sinceOk_run sinceOk_mount)
  then show ?thesis
    by (simp add: sinceOk_def first_effect first_cleanup timerCallback_def reveal_def Let_def)
qed

theorem disconnectedSince_iff_connected_witness:
  "firstDisconnectedTimeRef (effect 7 8 ERROR (mount 0 CONNECTED)) = Some 7 \<and>
   firstDisconnectedTimeRef (effect 9 9 DISCONNECTED (effect 7 8 ERROR (mount 0 CONNECTED))) = Some 7 \<and>
   firstDisconnectedTimeRef
     (effect 9 9 CONNECTED (effect 7 8 ERROR (mount 0 CONNECTED))) = None"
proof -
  have m: "firstDisconnectedTimeRef (mount 0 CONNECTED) = None"
    using connectedIdle_mount [of 0] by (simp add: connectedIdle_def)
  from disconnectedSince_iff_connected [of 7 8 ERROR "mount 0 CONNECTED"]
    disconnectedSince_iff_connected [of 9 9 DISCONNECTED "effect 7 8 ERROR (mount 0 CONNECTED)"]
    disconnectedSince_iff_connected [of 9 9 CONNECTED "effect 7 8 ERROR (mount 0 CONNECTED)"]
    m
  show ?thesis by simp
qed

text \<open>
  C8. The display mapping is total and depends on nothing but its argument. For every
  status, an unknown one included, both functions return a value (never \<open>undefined\<close>)
  and the destructuring of line 78 does not throw. The values are those of the four arms,
  and every status other than CONNECTED, CONNECTING and ERROR gets the visuals of
  DISCONNECTED. \<open>translate\<close> is used for the label only, once, on the key of the arm.
  Two states with the same \<open>delayedStatus\<close> are displayed alike, whatever their timers,
  refs and flags.
\<close>

theorem display_mapping_total:
  "getGradientColors s =
     Some (if s = CONNECTED then [''#4CAF50'', ''#81C784'']
           else if s = CONNECTING then [''#FFA726'', ''#FB8C00'']
           else if s = ERROR then [''#FFC107'', ''#FFD54F'']
           else [''#FF8A80'', ''#FF5252'']) \<and>
   getIcon translate s =
     Some (if s = CONNECTED then
             \<lparr>name = ''check-circle'', color = ''#4CAF50'',
              label = translate ''connection:connected''\<rparr>
           else if s = CONNECTING then
             \<lparr>name = ''spinner'', color = ''#FB8C00'',
              label = translate ''connection:connecting''\<rparr>
           else if s = ERROR then
             \<lparr>name = ''refresh'', color = ''#FFD54F'',
              label = translate ''connection:reconnecting''\<rparr>
           else
             \<lparr>name = ''exclamation-circle'', color = ''#FF5252'',
              label = translate ''connection:disconnected''\<rparr>) \<and>
   (s \<noteq> CONNECTED \<and> s \<noteq> CONNECTING \<and> s \<noteq> ERROR \<longrightarrow>
      getGradientColors s = getGradientColors DISCONNECTED \<and>
      getIcon translate s = getIcon translate DISCONNECTED) \<and>
   getIcon translate s = map_option (\<lambda>i. i\<lparr>label := translate (label i)\<rparr>) (getIcon id s) \<and>
   currentDisplay translate w \<noteq> Inl TypeError \<and>
   (\<exists>cs nm cl lb.
      currentDisplay translate w =
        Inr \<lparr>colors = Some cs, iconName = nm, iconColor = cl, statusLabel = lb\<rparr>) \<and>
   (delayedStatus w = delayedStatus w' \<longrightarrow>
      currentDisplay translate w = currentDisplay translate w')"
proof -
  have g: "getGradientColors s =
     Some (if s = CONNECTED then [''#4CAF50'', ''#81C784'']
           else if s = CONNECTING then [''#FFA726'', ''#FB8C00'']
           else if s = ERROR then [''#FFC107'', ''#FFD54F'']
           else [''#FF8A80'', ''#FF5252''])" for s
    by (simp add: getGradientColors_def)
  have i: "getIcon tr s =
     Some (if s = CONNECTED then
             \<lparr>name = ''check-circle'', color = ''#4CAF50'',
              label = tr ''connection:connected''\<rparr>
           else if s = CONNECTING then
             \<lparr>name = ''spinner'', color = ''#FB8C00'',
              label = tr ''connection:connecting''\<rparr>
           else if s = ERROR then
             \<lparr>name = ''refresh'', color = ''#FFD54F'',
              label = tr ''connection:reconnecting''\<rparr>
           else
             \<lparr>name = ''exclamation-circle'', color = ''#FF5252'',
              label = tr ''connection:disconnected''\<rparr>)" for tr s
    by (simp add: getIcon_def)
  have d: "currentDisplay translate w =
     Inr \<lparr>colors = getGradientColors (delayedStatus w),
          iconName = name (the (getIcon translate (delayedStatus w))),
          iconColor = color (the (getIcon translate (delayedStatus w))),
          statusLabel = label (the (getIcon translate (delayedStatus w)))\<rparr>" for w
    by (simp add: currentDisplay_def i)
  have ex: "\<exists>cs nm cl lb.
      currentDisplay translate w =
        Inr \<lparr>colors = Some cs, iconName = nm, iconColor = cl, statusLabel = lb\<rparr>"
    unfolding d g by blast
  have same: "delayedStatus w = delayedStatus w' \<longrightarrow>
      currentDisplay translate w = currentDisplay translate w'"
    by (simp add: d)
  have nofail: "currentDisplay translate w \<noteq> Inl TypeError"
    by (simp add: d)
  have once: "getIcon translate s =
      map_option (\<lambda>i. i\<lparr>label := translate (label i)\<rparr>) (getIcon id s)"
    by (simp add: i)
  have dflt: "s \<noteq> CONNECTED \<and> s \<noteq> CONNECTING \<and> s \<noteq> ERROR \<longrightarrow>
      getGradientColors s = getGradientColors DISCONNECTED \<and>
      getIcon translate s = getIcon translate DISCONNECTED"
    by (simp add: g i)
  from g [of s] i [of translate s] dflt once nofail ex same show ?thesis
    by blast
qed

theorem display_mapping_total_witness:
  "getGradientColors (OTHER ''closing'') = Some [''#FF8A80'', ''#FF5252''] \<and>
   getGradientColors (OTHER ''closing'') = getGradientColors DISCONNECTED \<and>
   getIcon id (OTHER ''closing'') = getIcon id DISCONNECTED \<and>
   getIcon id CONNECTING =
     Some \<lparr>name = ''spinner'', color = ''#FB8C00'', label = ''connection:connecting''\<rparr> \<and>
   delayedStatus (initial ERROR) = delayedStatus (mount 0 ERROR) \<and>
   timers (initial ERROR) \<noteq> timers (mount 0 ERROR) \<and>
   currentDisplay id (initial ERROR) = currentDisplay id (mount 0 ERROR)"
proof -
  have same: "delayedStatus (initial ERROR) = delayedStatus (mount 0 ERROR)"
    by code_simp
  have differ: "timers (initial ERROR) \<noteq> timers (mount 0 ERROR)"
    by code_simp
  have unknown: "OTHER ''closing'' \<noteq> CONNECTED \<and> OTHER ''closing'' \<noteq> CONNECTING \<and>
      OTHER ''closing'' \<noteq> ERROR"
    by simp
  have colours: "(if OTHER ''closing'' = CONNECTED then [''#4CAF50'', ''#81C784'']
           else if OTHER ''closing'' = CONNECTING then [''#FFA726'', ''#FB8C00'']
           else if OTHER ''closing'' = ERROR then [''#FFC107'', ''#FFD54F'']
           else [''#FF8A80'', ''#FF5252'']) = [''#FF8A80'', ''#FF5252'']"
    by simp
  have other: "getGradientColors (OTHER ''closing'') = Some [''#FF8A80'', ''#FF5252''] \<and>
      getGradientColors (OTHER ''closing'') = getGradientColors DISCONNECTED \<and>
      getIcon id (OTHER ''closing'') = getIcon id DISCONNECTED"
    using display_mapping_total
      [where s = "OTHER ''closing''" and translate = id and w = "initial ERROR"
         and w' = "mount 0 ERROR"]
      unknown
    unfolding colours by blast
  have connecting: "getIcon id CONNECTING =
      Some \<lparr>name = ''spinner'', color = ''#FB8C00'', label = ''connection:connecting''\<rparr>"
    using display_mapping_total
      [where s = CONNECTING and translate = id and w = "initial ERROR" and w' = "mount 0 ERROR"]
    by simp
  have alike: "currentDisplay id (initial ERROR) = currentDisplay id (mount 0 ERROR)"
    using display_mapping_total
      [where s = ERROR and translate = id and w = "initial ERROR" and w' = "mount 0 ERROR"]
      same
    by blast
  from other connecting same differ alike show ?thesis
    by blast
qed

text \<open>
  C9. A visible indicator never shows CONNECTED: the first render, the effect and the timer
  callback keep this, so it holds in every reachable state.
\<close>

theorem revealed_never_connected:
  "displayOk (initial s0) \<and>
   (displayOk w \<longrightarrow> displayOk (effect n1 n2 s w) \<and> displayOk (timerCallback w)) \<and>
   (reachable w \<longrightarrow> (shouldDisplay w \<longrightarrow> delayedStatus w \<noteq> CONNECTED))"
proof -
  have "reachable w \<longrightarrow> (shouldDisplay w \<longrightarrow> delayedStatus w \<noteq> CONNECTED)"
    using reachable_displayOk [of w] by (auto simp: displayOk_def shouldDisplay_def)
  then show ?thesis
    by (simp add: displayOk_initial displayOk_effect displayOk_timerCallback)
qed

theorem revealed_never_connected_witness:
  "reachable (advance 5000 (statusChanged 0 DISCONNECTED (mount 0 CONNECTED))) \<and>
   shouldDisplay (advance 5000 (statusChanged 0 DISCONNECTED (mount 0 CONNECTED))) \<and>
   delayedStatus (advance 5000 (statusChanged 0 DISCONNECTED (mount 0 CONNECTED))) \<noteq> CONNECTED"
proof -
  let ?w = "advance 5000 (statusChanged 0 DISCONNECTED (mount 0 CONNECTED))"
  have r: "reachable ?w"
    by (intro reachable_advance reachable_pending)
  have "\<not> hideCloudConnection ?w"
    using advance_after(1) [OF pending_example, of 5000] by simp
  then have d: "shouldDisplay ?w" by (simp add: shouldDisplay_def)
  from revealed_never_connected [of CONNECTED ?w 0 0 CONNECTED] r d show ?thesis
    by blast
qed

text \<open>
  C10. The effect, run for a non-connected status less than 5000 ms after the departure,
  leaves the displayed status, the hidden flag and the animation as they were. It records
  the departure time if none was recorded, schedules the timeout for the remaining delay,
  and calls \<open>refreshApplets\<close> once if the status is DISCONNECTED.
\<close>

theorem waiting_changes_no_display:
  assumes "s \<noteq> CONNECTED" and "timeSinceLeftConnected n1 n2 w < 5000"
  shows "delayedStatus (effect n1 n2 s w) = delayedStatus w \<and>
         hideCloudConnection (effect n1 n2 s w) = hideCloudConnection w \<and>
         cloudConnectionStatusAnim (effect n1 n2 s w) = cloudConnectionStatusAnim w \<and>
         storeStatus (effect n1 n2 s w) = storeStatus w \<and>
         firstDisconnectedTimeRef (effect n1 n2 s w) =
           Some (case firstDisconnectedTimeRef w of None \<Rightarrow> n1 | Some t \<Rightarrow> t) \<and>
         disconnectionTimerRef (effect n1 n2 s w) = Some (nextTimer w) \<and>
         timers (effect n1 n2 s w) =
           timers (clearPending w) @
             [(nextTimer w, n2 + (5000 - timeSinceLeftConnected n1 n2 w))] \<and>
         refreshCalls (effect n1 n2 s w) = refreshCalls w + (if s = DISCONNECTED then 1 else 0)"
  using assms
  by (simp add: delayed_effect hide_effect anim_effect storeStatus_effect first_effect
      ref_effect timers_effect refreshCalls_effect DISCONNECTION_DELAY_def)

theorem waiting_changes_no_display_witness:
  "ERROR \<noteq> CONNECTED \<and>
   timeSinceLeftConnected 100 100 (statusChanged 0 DISCONNECTED (mount 0 CONNECTED)) < 5000 \<and>
   delayedStatus (effect 100 100 ERROR (statusChanged 0 DISCONNECTED (mount 0 CONNECTED))) =
     delayedStatus (statusChanged 0 DISCONNECTED (mount 0 CONNECTED)) \<and>
   hideCloudConnection (effect 100 100 ERROR (statusChanged 0 DISCONNECTED (mount 0 CONNECTED))) =
     hideCloudConnection (statusChanged 0 DISCONNECTED (mount 0 CONNECTED))"
proof -
  let ?w = "statusChanged 0 DISCONNECTED (mount 0 CONNECTED)"
  have ts: "timeSinceLeftConnected 100 100 ?w = 100"
    using pending_example by (simp add: revealPending_def timeSince_Some [of _ 0])
  then have lt: "timeSinceLeftConnected 100 100 ?w < 5000" by simp
  have s: "ERROR \<noteq> CONNECTED" by simp
  from waiting_changes_no_display [OF s lt] lt show ?thesis
    by simp
qed

text \<open>
  C2, as the specification states it, counts two calls of \<open>refreshApplets\<close> over the
  run that mounts with CONNECTED and then sees DISCONNECTED at 0, ERROR at 1000 and
  CONNECTED at 1500. The effect also runs after the first render, so the count is not two.
\<close>

theorem refresh_scenario_counterexample:
  "refreshCalls
     (run (mount 0 CONNECTED) [(0, DISCONNECTED), (1000, ERROR), (1500, CONNECTED)]) \<noteq> 2"
  by code_simp

text \<open>
  C2, amended. Every run of the effect calls \<open>refreshApplets\<close> exactly once when its
  status is CONNECTED or DISCONNECTED and not at all otherwise; the timer callback and the
  cleanup never call it. The effect runs at mounting too: over the run above that is one
  call at mounting and two after it, three in total.
\<close>

theorem refresh_once_per_effect_run:
  "refreshCalls (effect n1 n2 s w) =
     refreshCalls w + (if s = CONNECTED \<or> s = DISCONNECTED then 1 else 0) \<and>
   refreshCalls (timerCallback w) = refreshCalls w \<and>
   refreshCalls (cleanup w) = refreshCalls w \<and>
   refreshCalls (mount 0 CONNECTED) = 1 \<and>
   refreshCalls
     (run (mount 0 CONNECTED) [(0, DISCONNECTED), (1000, ERROR), (1500, CONNECTED)]) = 3"
proof -
  have "refreshCalls (mount 0 CONNECTED) = 1"
    by code_simp
  moreover have "refreshCalls
     (run (mount 0 CONNECTED) [(0, DISCONNECTED), (1000, ERROR), (1500, CONNECTED)]) = 3"
    by code_simp
  ultimately show ?thesis
    by (simp add: refreshCalls_effect timerCallback_def reveal_def Let_def cleanup_def
        clearPending_fields)
qed

theorem refresh_once_per_effect_run_witness:
  "refreshCalls (effect 0 0 DISCONNECTED (initial DISCONNECTED)) = 1 \<and>
   refreshCalls (effect 0 0 CONNECTING (initial CONNECTING)) = 0 \<and>
   refreshCalls (effect 0 0 ERROR (initial ERROR)) = 0 \<and>
   refreshCalls (effect 0 0 CONNECTED (initial CONNECTED)) = 1"
  using refresh_once_per_effect_run [of 0 0 DISCONNECTED "initial DISCONNECTED"]
    refresh_once_per_effect_run [of 0 0 CONNECTING "initial CONNECTING"]
    refresh_once_per_effect_run [of 0 0 ERROR "initial ERROR"]
    refresh_once_per_effect_run [of 0 0 CONNECTED "initial CONNECTED"]
  by (simp add: initial_def)

end
